theory Spec2Isabelle
  imports Main
begin

section \<open>Python values and exceptions\<close>

text \<open>
  The exceptions that \<open>agilerl/algorithms/core/wrappers.py\<close> can raise, as values. Every
  failing \<open>assert\<close> of the source is an \<open>AssertionError\<close> carrying the assertion's
  message (assertions are modelled as enabled, the interpreter's default); the other
  constructors are the built-in exceptions of the operations the source applies to its
  arguments. \<open>ExternalError\<close> is anything raised inside the optimizer library.
\<close>

datatype error =
    AssertionError string
  | TypeError string
  | IndexError string
  | KeyError string
  | AttributeError string
  | ExternalError string

text \<open>
  Objects of the owning algorithm, on which the source observes identity (\<open>id(...)\<close>):
  the networks argument, its elements and the values of the owner's fields. Every object
  carries its identity; two \<open>Module\<close>s with the same parameters and different identities
  are value-equal, distinct instances. \<open>PyTuple\<close> stands for the sized, iterable objects
  that are not lists, \<open>PyOther\<close> for objects without \<open>__len__\<close>, \<open>__iter__\<close>,
  \<open>__getitem__\<close> and \<open>parameters\<close>.
\<close>

datatype pyobj =
    Module nat "nat list"
  | PyList nat "pyobj list"
  | PyTuple nat "pyobj list"
  | PyOther nat

text \<open>
  Plain data, on which the source only tests the type: optimizer classes, keyword
  configurations and serialized states. \<open>VParams ps\<close> is what \<open>net.parameters()\<close>
  returns for a module with parameters \<open>ps\<close>. A \<open>dict\<close> is an association list in
  insertion order.
\<close>

datatype pyval =
    VNone
  | VBool bool
  | VInt int
  | VStr string
  | VClass string
  | VParams "nat list"
  | VList "pyval list"
  | VTuple "pyval list"
  | VDict "(string \<times> pyval) list"

fun py_id :: "pyobj \<Rightarrow> nat" where
  "py_id (Module i ps) = i"
| "py_id (PyList i xs) = i"
| "py_id (PyTuple i xs) = i"
| "py_id (PyOther i) = i"

fun is_module :: "pyobj \<Rightarrow> bool" where
  "is_module (Module i ps) = True"
| "is_module x = False"

fun is_list :: "pyval \<Rightarrow> bool" where
  "is_list (VList xs) = True"
| "is_list v = False"

fun is_dict :: "pyval \<Rightarrow> bool" where
  "is_dict (VDict d) = True"
| "is_dict v = False"

fun is_type :: "pyval \<Rightarrow> bool" where
  "is_type (VClass c) = True"
| "is_type v = False"

text \<open>Truth value of a Python value, as \<open>assert\<close> and \<open>if\<close> take it.\<close>

fun truthy :: "pyval \<Rightarrow> bool" where
  "truthy VNone = False"
| "truthy (VBool b) = b"
| "truthy (VInt i) = (i \<noteq> 0)"
| "truthy (VStr s) = (s \<noteq> [])"
| "truthy (VClass c) = True"
| "truthy (VParams ps) = True"
| "truthy (VList xs) = (xs \<noteq> [])"
| "truthy (VTuple xs) = (xs \<noteq> [])"
| "truthy (VDict d) = (d \<noteq> [])"

definition py_assert :: "bool \<Rightarrow> string \<Rightarrow> error + unit" where
  "py_assert c msg = (if c then Inr () else Inl (AssertionError msg))"

text \<open>\<open>len(x)\<close>, \<open>iter(x)\<close>, \<open>x[0]\<close> and \<open>x.parameters()\<close> on an object.\<close>

fun py_len :: "pyobj \<Rightarrow> error + nat" where
  "py_len (PyList i xs) = Inr (length xs)"
| "py_len (PyTuple i xs) = Inr (length xs)"
| "py_len x = Inl (TypeError ''object has no len()'')"

fun py_iter :: "pyobj \<Rightarrow> error + pyobj list" where
  "py_iter (PyList i xs) = Inr xs"
| "py_iter (PyTuple i xs) = Inr xs"
| "py_iter x = Inl (TypeError ''object is not iterable'')"

fun py_first :: "pyobj \<Rightarrow> error + pyobj" where
  "py_first (PyList i []) = Inl (IndexError ''list index out of range'')"
| "py_first (PyList i (x # xs)) = Inr x"
| "py_first (PyTuple i []) = Inl (IndexError ''tuple index out of range'')"
| "py_first (PyTuple i (x # xs)) = Inr x"
| "py_first x = Inl (TypeError ''object is not subscriptable'')"

fun parameters :: "pyobj \<Rightarrow> error + pyval" where
  "parameters (Module i ps) = Inr (VParams ps)"
| "parameters x = Inl (AttributeError ''parameters'')"

text \<open>\<open>x[i] if isinstance(x, list) else x\<close>, for an index \<open>i\<close> that \<open>enumerate\<close> produced.\<close>

fun select_spec :: "pyval \<Rightarrow> nat \<Rightarrow> error + pyval" where
  "select_spec (VList xs) i =
     (if i < length xs then Inr (xs ! i) else Inl (IndexError ''list index out of range''))"
| "select_spec v i = Inr v"

text \<open>\<open>**kwargs\<close>: the argument after \<open>**\<close> must be a mapping.\<close>

fun as_mapping :: "pyval \<Rightarrow> error + (string \<times> pyval) list" where
  "as_mapping (VDict d) = Inr d"
| "as_mapping v = Inl (TypeError ''argument after ** must be a mapping'')"

text \<open>Storing a key in a \<open>dict\<close>: an existing key keeps its position and takes the new value.\<close>

fun dict_set :: "(string \<times> pyval) list \<Rightarrow> string \<Rightarrow> pyval \<Rightarrow> (string \<times> pyval) list" where
  "dict_set [] k v = [(k, v)]"
| "dict_set ((k', v') # d) k v =
     (if k' = k then (k, v) # d else (k', v') # dict_set d k v)"

text \<open>The dict display \<open>{"params": ps, **kwargs}\<close>.\<close>

definition param_group :: "pyval \<Rightarrow> (string \<times> pyval) list \<Rightarrow> (string \<times> pyval) list" where
  "param_group ps d = foldl (\<lambda>acc (k, v). dict_set acc k v) [(''params'', ps)] d"

section \<open>The optimizer library\<close>

text \<open>
  \<open>torch.optim.Optimizer\<close> is not part of the repository: its operations are parameters
  of the model. An instance is a value of type \<open>'opt\<close> that holds its own state.
  \<open>construct cls args kwargs\<close> is the call \<open>cls(args, **kwargs)\<close>; a mutating method
  returns the instance after the call and the exception it raised, if any.
  \<open>opt_type_repr\<close> is \<open>str(type(opt))\<close>. An instance has no \<open>__getitem__\<close>,
  \<open>__len__\<close> or \<open>__iter__\<close>.
\<close>

record 'opt optimizer_api =
  construct :: "pyval \<Rightarrow> pyval \<Rightarrow> (string \<times> pyval) list \<Rightarrow> error + 'opt"
  opt_state_dict :: "'opt \<Rightarrow> pyval"
  opt_load_state_dict :: "'opt \<Rightarrow> pyval \<Rightarrow> 'opt \<times> error option"
  opt_step :: "'opt \<Rightarrow> 'opt \<times> error option"
  opt_zero_grad :: "'opt \<Rightarrow> 'opt \<times> error option"
  opt_type_repr :: "'opt \<Rightarrow> string"

text \<open>A constructor call that was made: the class, the positional argument, the keywords.\<close>

type_synonym ctor_call = "pyval \<times> pyval \<times> (string \<times> pyval) list"

section \<open>OptimizerWrapper\<close>

text \<open>The field \<open>optimizer\<close> holds one instance or a list of instances.\<close>

datatype 'opt optimizer_field = OptOne 'opt | OptList "'opt list"

record 'opt OptimizerWrapper =
  optimizer_cls :: pyval
  optimizer_kwargs :: pyval
  multiagent :: bool
  networks :: pyobj
  network_names :: "string list"
  optimizer :: "'opt optimizer_field"

subsection \<open>Attribute resolution\<close>

text \<open>
  \<open>_infer_parent_container\<close> reads the local \<open>self\<close> of the frame two levels up; the
  model receives that frame's \<open>self\<close> as its \<open>vars(...)\<close>, an ordered list of fields, or
  \<open>None\<close> when the frame has no such local.
\<close>

definition infer_parent_container ::
  "(string \<times> pyobj) list option \<Rightarrow> error + (string \<times> pyobj) list" where
  "infer_parent_container caller_self =
     (case caller_self of None \<Rightarrow> Inl (KeyError ''self'') | Some container \<Rightarrow> Inr container)"

text \<open>\<open>_match_condition\<close>, with the \<open>self.multiagent\<close> and \<open>self.networks\<close> it reads.\<close>

definition match_condition :: "bool \<Rightarrow> pyobj \<Rightarrow> pyobj \<Rightarrow> error + bool" where
  "match_condition ma nets attr_value =
     (if \<not> ma then
        (case py_iter nets of
           Inl e \<Rightarrow> Inl e
         | Inr xs \<Rightarrow> Inr (list_ex (\<lambda>net. py_id attr_value = py_id net) xs))
      else Inr (py_id attr_value = py_id nets))"

fun infer_network_attr_names ::
  "bool \<Rightarrow> pyobj \<Rightarrow> (string \<times> pyobj) list \<Rightarrow> error + string list" where
  "infer_network_attr_names ma nets [] = Inr []"
| "infer_network_attr_names ma nets ((attr_name, attr_value) # rest) =
     (case match_condition ma nets attr_value of
        Inl e \<Rightarrow> Inl e
      | Inr b \<Rightarrow>
          (case infer_network_attr_names ma nets rest of
             Inl e \<Rightarrow> Inl e
           | Inr names \<Rightarrow> Inr (if b then attr_name # names else names)))"

subsection \<open>Construction\<close>

text \<open>
  Lines 38 to 46. The source asserts a parenthesised pair of the condition and the
  message, that is a tuple of two elements; \<open>networks_assertion\<close> is the asserted value.
  \<open>fresh\<close> is the identity of the list that line 39 allocates.
\<close>

fun networks_condition :: "pyobj \<Rightarrow> bool" where
  "networks_condition (PyList i xs) = list_all is_module xs"
| "networks_condition x = False"

definition networks_assertion :: "pyobj \<Rightarrow> pyval" where
  "networks_assertion nets =
     VTuple [VBool (networks_condition nets),
             VStr ''Expected a single network or a list of networks.'']"

definition set_networks :: "pyobj \<Rightarrow> nat \<Rightarrow> error + pyobj" where
  "set_networks nets fresh =
     (if is_module nets then Inr (PyList fresh [nets])
      else (case py_assert (truthy (networks_assertion nets)) [] of
              Inl e \<Rightarrow> Inl e
            | Inr u \<Rightarrow> Inr nets))"

text \<open>Lines 50 to 56.\<close>

definition set_network_names ::
  "bool \<Rightarrow> pyobj \<Rightarrow> string list option \<Rightarrow> (string \<times> pyobj) list option \<Rightarrow> error + string list" where
  "set_network_names ma self_networks names_arg caller_self =
     (case (case names_arg of
              Some names \<Rightarrow> Inr names
            | None \<Rightarrow>
                (case infer_parent_container caller_self of
                   Inl e \<Rightarrow> Inl e
                 | Inr container \<Rightarrow> infer_network_attr_names ma self_networks container)) of
        Inl e \<Rightarrow> Inl e
      | Inr names \<Rightarrow>
          (case py_assert (names \<noteq> []) ''No networks found in the parent container.'' of
             Inl e \<Rightarrow> Inl e
           | Inr u \<Rightarrow> Inr names))"

text \<open>
  Lines 64 to 68: the loop over \<open>enumerate(self.networks)\<close>. The result is the list that the
  source appends to, and the constructor calls made.
\<close>

fun build_per_network ::
  "'opt optimizer_api \<Rightarrow> pyval \<Rightarrow> pyval \<Rightarrow> nat \<Rightarrow> pyobj list
     \<Rightarrow> (error + 'opt list) \<times> ctor_call list" where
  "build_per_network api cls kwargs i [] = (Inr [], [])"
| "build_per_network api cls kwargs i (net # rest) =
     (case select_spec cls i of
        Inl e \<Rightarrow> (Inl e, [])
      | Inr c \<Rightarrow>
     (case select_spec kwargs i of
        Inl e \<Rightarrow> (Inl e, [])
      | Inr k \<Rightarrow>
     (case parameters net of
        Inl e \<Rightarrow> (Inl e, [])
      | Inr ps \<Rightarrow>
     (case as_mapping k of
        Inl e \<Rightarrow> (Inl e, [])
      | Inr d \<Rightarrow>
     (case construct api c ps d of
        Inl e \<Rightarrow> (Inl e, [(c, ps, d)])
      | Inr opt \<Rightarrow>
     (case build_per_network api cls kwargs (Suc i) rest of
        (Inl e, calls) \<Rightarrow> (Inl e, (c, ps, d) # calls)
      | (Inr opts, calls) \<Rightarrow> (Inr (opt # opts), (c, ps, d) # calls)))))))"

text \<open>Lines 79 to 82: the parameter groups \<open>opt_args\<close>.\<close>

fun build_opt_args :: "pyval \<Rightarrow> nat \<Rightarrow> pyobj list \<Rightarrow> error + pyval list" where
  "build_opt_args kwargs i [] = Inr []"
| "build_opt_args kwargs i (net # rest) =
     (case select_spec kwargs i of
        Inl e \<Rightarrow> Inl e
      | Inr k \<Rightarrow>
     (case parameters net of
        Inl e \<Rightarrow> Inl e
      | Inr ps \<Rightarrow>
     (case as_mapping k of
        Inl e \<Rightarrow> Inl e
      | Inr d \<Rightarrow>
     (case build_opt_args kwargs (Suc i) rest of
        Inl e \<Rightarrow> Inl e
      | Inr groups \<Rightarrow> Inr (VDict (param_group ps d) # groups)))))"

text \<open>One constructor call, with its record in the trace.\<close>

definition construct_one ::
  "'opt optimizer_api \<Rightarrow> pyval \<Rightarrow> pyval \<Rightarrow> (string \<times> pyval) list
     \<Rightarrow> (error + 'opt optimizer_field) \<times> ctor_call list" where
  "construct_one api cls args d =
     (case construct api cls args d of
        Inl e \<Rightarrow> (Inl e, [(cls, args, d)])
      | Inr opt \<Rightarrow> (Inr (OptOne opt), [(cls, args, d)]))"

text \<open>Lines 61 to 94: the three branches.\<close>

definition build_optimizer ::
  "'opt optimizer_api \<Rightarrow> pyval \<Rightarrow> pyval \<Rightarrow> bool \<Rightarrow> pyobj \<Rightarrow> string list
     \<Rightarrow> (error + 'opt optimizer_field) \<times> ctor_call list" where
  "build_optimizer api cls kwargs ma self_networks names =
     (let multiple_attrs = (length names > 1) in
      case py_len self_networks of
        Inl e \<Rightarrow> (Inl e, [])
      | Inr n \<Rightarrow>
     (let multiple_networks = (n > 1) in
      if ma then
        (case py_iter self_networks of
           Inl e \<Rightarrow> (Inl e, [])
         | Inr nets \<Rightarrow>
             (case build_per_network api cls kwargs 0 nets of
                (Inl e, calls) \<Rightarrow> (Inl e, calls)
              | (Inr opts, calls) \<Rightarrow> (Inr (OptList opts), calls)))
      else if multiple_networks \<and> multiple_attrs then
        (case py_assert (n = length names)
                ''Number of networks and network attribute names do not match.'' of
           Inl e \<Rightarrow> (Inl e, [])
         | Inr u \<Rightarrow>
        (case py_assert (is_type cls)
                ''Expected a single optimizer class for multiple networks.'' of
           Inl e \<Rightarrow> (Inl e, [])
         | Inr u \<Rightarrow>
        (case py_iter self_networks of
           Inl e \<Rightarrow> (Inl e, [])
         | Inr nets \<Rightarrow>
        (case build_opt_args kwargs 0 nets of
           Inl e \<Rightarrow> (Inl e, [])
         | Inr opt_args \<Rightarrow> construct_one api cls (VList opt_args) []))))
      else
        (case py_assert (is_type cls)
                ''Expected a single optimizer class for a single network.'' of
           Inl e \<Rightarrow> (Inl e, [])
         | Inr u \<Rightarrow>
        (case py_assert (is_dict kwargs)
                ''Expected a single dictionary of optimizer keyword arguments.'' of
           Inl e \<Rightarrow> (Inl e, [])
         | Inr u \<Rightarrow>
        (case py_first self_networks of
           Inl e \<Rightarrow> (Inl e, [])
         | Inr net \<Rightarrow>
        (case parameters net of
           Inl e \<Rightarrow> (Inl e, [])
         | Inr ps \<Rightarrow>
        (case as_mapping kwargs of
           Inl e \<Rightarrow> (Inl e, [])
         | Inr d \<Rightarrow> construct_one api cls ps d)))))))"

text \<open>
  \<open>OptimizerWrapper.__init__\<close>: the wrapper, or the exception that ends the construction,
  and the optimizer constructor calls made on the way.
\<close>

definition init ::
  "'opt optimizer_api \<Rightarrow> pyval \<Rightarrow> pyobj \<Rightarrow> pyval \<Rightarrow> string list option \<Rightarrow> bool
     \<Rightarrow> (string \<times> pyobj) list option \<Rightarrow> nat
     \<Rightarrow> (error + 'opt OptimizerWrapper) \<times> ctor_call list" where
  "init api cls nets kwargs names_arg ma caller_self fresh =
     (case set_networks nets fresh of
        Inl e \<Rightarrow> (Inl e, [])
      | Inr self_networks \<Rightarrow>
     (case set_network_names ma self_networks names_arg caller_self of
        Inl e \<Rightarrow> (Inl e, [])
      | Inr names \<Rightarrow>
     (case build_optimizer api cls kwargs ma self_networks names of
        (Inl e, calls) \<Rightarrow> (Inl e, calls)
      | (Inr opt, calls) \<Rightarrow>
          (Inr \<lparr> optimizer_cls = cls, optimizer_kwargs = kwargs, multiagent = ma,
                 networks = self_networks, network_names = names, optimizer = opt \<rparr>,
           calls))))"

text \<open>
  The three shapes the constructor chooses between, by the conditions of its branches at
  lines 63, 71 and 87, read off a wrapper's fields.
\<close>

datatype topology = PER_NETWORK | POOLED | SINGLE

definition topology_of :: "'opt OptimizerWrapper \<Rightarrow> topology" where
  "topology_of self =
     (if multiagent self then PER_NETWORK
      else if (case py_len (networks self) of Inl e \<Rightarrow> False | Inr n \<Rightarrow> n > 1)
              \<and> length (network_names self) > 1 then POOLED
      else SINGLE)"

subsection \<open>Indexing\<close>

text \<open>
  \<open>self.optimizer[index]\<close> for an \<open>int\<close>: a list counts a negative index from its end
  and raises \<open>IndexError\<close> out of range; an instance is not subscriptable.
\<close>

definition optimizer_subscript :: "'opt optimizer_field \<Rightarrow> int \<Rightarrow> error + 'opt" where
  "optimizer_subscript field index =
     (case field of
        OptList opts \<Rightarrow>
          (let n = int (length opts); j = (if index < 0 then index + n else index)
           in if 0 \<le> j \<and> j < n then Inr (opts ! nat j)
              else Inl (IndexError ''list index out of range''))
      | OptOne opt \<Rightarrow> Inl (TypeError ''object is not subscriptable''))"

text \<open>\<open>__getitem__\<close>: a \<open>TypeError\<close> of the subscript is replaced, anything else passes.\<close>

definition getitem :: "'opt optimizer_api \<Rightarrow> 'opt OptimizerWrapper \<Rightarrow> int \<Rightarrow> error + 'opt" where
  "getitem api self index =
     (case optimizer_subscript (optimizer self) index of
        Inl (TypeError m) \<Rightarrow>
          Inl (TypeError (''Can't access item of a single ''
                 @ (case optimizer self of
                      OptOne opt \<Rightarrow> opt_type_repr api opt
                    | OptList opts \<Rightarrow> ''<class 'list'>'')
                 @ '' object.''))
      | r \<Rightarrow> r)"

subsection \<open>Serialized state\<close>

text \<open>
  The loop of \<open>load_state_dict\<close> (lines 152 and 153) over \<open>enumerate(optimizers)\<close>. The
  instances are mutated in place: the list after the loop and the exception that ended it.
\<close>

fun load_each ::
  "'opt optimizer_api \<Rightarrow> pyval list \<Rightarrow> nat \<Rightarrow> 'opt list \<Rightarrow> 'opt list \<times> error option" where
  "load_each api sds i [] = ([], None)"
| "load_each api sds i (opt # rest) =
     (if i < length sds then
        (case opt_load_state_dict api opt (sds ! i) of
           (opt', Some e) \<Rightarrow> (opt' # rest, Some e)
         | (opt', None) \<Rightarrow>
             (case load_each api sds (Suc i) rest of
                (rest', r) \<Rightarrow> (opt' # rest', r)))
      else (opt # rest, Some (IndexError ''list index out of range'')))"

fun list_items :: "pyval \<Rightarrow> pyval list" where
  "list_items (VList xs) = xs"
| "list_items v = []"

text \<open>
  \<open>load_state_dict\<close>: the wrapper after the call and the exception raised, if any. In the
  first assertion \<open>len(self.optimizer)\<close> is evaluated only for a list payload.
\<close>

definition load_state_dict ::
  "'opt optimizer_api \<Rightarrow> 'opt OptimizerWrapper \<Rightarrow> pyval
     \<Rightarrow> 'opt OptimizerWrapper \<times> error option" where
  "load_state_dict api self state_dict =
     (if multiagent self then
        (if \<not> is_list state_dict then
           (self, Some (AssertionError
              ''Expected a list of optimizer state dictionaries for multi-agent optimizers.''))
         else
           (case optimizer self of
              OptOne opt \<Rightarrow> (self, Some (TypeError ''object has no len()''))
            | OptList optimizers \<Rightarrow>
                (case py_assert (length (list_items state_dict) = length optimizers)
                   ''Expected a list of optimizer state dictionaries for multi-agent optimizers.'' of
                   Inl e \<Rightarrow> (self, Some e)
                 | Inr u \<Rightarrow>
                     (case load_each api (list_items state_dict) 0 optimizers of
                        (opts', r) \<Rightarrow> (self\<lparr> optimizer := OptList opts' \<rparr>, r)))))
      else
        (case py_assert (is_dict state_dict)
           ''Expected a single optimizer state dictionary for single-agent optimizers.'' of
           Inl e \<Rightarrow> (self, Some e)
         | Inr u \<Rightarrow>
             (case optimizer self of
                OptOne opt \<Rightarrow>
                  (case opt_load_state_dict api opt state_dict of
                     (opt', r) \<Rightarrow> (self\<lparr> optimizer := OptOne opt' \<rparr>, r))
              | OptList opts \<Rightarrow> (self, Some (AttributeError ''load_state_dict'')))))"

text \<open>\<open>state_dict\<close> reads the instances and changes nothing.\<close>

definition state_dict :: "'opt optimizer_api \<Rightarrow> 'opt OptimizerWrapper \<Rightarrow> error + pyval" where
  "state_dict api self =
     (if multiagent self then
        (case optimizer self of
           OptList optimizers \<Rightarrow> Inr (VList (map (opt_state_dict api) optimizers))
         | OptOne opt \<Rightarrow> Inl (TypeError ''object is not iterable''))
      else
        (case optimizer self of
           OptOne opt \<Rightarrow> Inr (opt_state_dict api opt)
         | OptList opts \<Rightarrow> Inl (AttributeError ''state_dict'')))"

subsection \<open>Delegation\<close>

text \<open>\<open>for opt in optimizers: opt.m()\<close>, stopping at the first exception.\<close>

fun for_each :: "('opt \<Rightarrow> 'opt \<times> error option) \<Rightarrow> 'opt list \<Rightarrow> 'opt list \<times> error option" where
  "for_each m [] = ([], None)"
| "for_each m (opt # rest) =
     (case m opt of
        (opt', Some e) \<Rightarrow> (opt' # rest, Some e)
      | (opt', None) \<Rightarrow>
          (case for_each m rest of (rest', r) \<Rightarrow> (opt' # rest', r)))"

definition delegate ::
  "('opt \<Rightarrow> 'opt \<times> error option) \<Rightarrow> string \<Rightarrow> 'opt OptimizerWrapper
     \<Rightarrow> 'opt OptimizerWrapper \<times> error option" where
  "delegate m name self =
     (if multiagent self then
        (case optimizer self of
           OptList optimizers \<Rightarrow>
             (case for_each m optimizers of
                (opts', r) \<Rightarrow> (self\<lparr> optimizer := OptList opts' \<rparr>, r))
         | OptOne opt \<Rightarrow> (self, Some (TypeError ''object is not iterable'')))
      else
        (case optimizer self of
           OptOne opt \<Rightarrow> (case m opt of (opt', r) \<Rightarrow> (self\<lparr> optimizer := OptOne opt' \<rparr>, r))
         | OptList opts \<Rightarrow> (self, Some (AttributeError name))))"

definition zero_grad ::
  "'opt optimizer_api \<Rightarrow> 'opt OptimizerWrapper \<Rightarrow> 'opt OptimizerWrapper \<times> error option" where
  "zero_grad api self = delegate (opt_zero_grad api) ''zero_grad'' self"

definition step ::
  "'opt optimizer_api \<Rightarrow> 'opt OptimizerWrapper \<Rightarrow> 'opt OptimizerWrapper \<times> error option" where
  "step api self = delegate (opt_step api) ''step'' self"

subsection \<open>Operation sequences\<close>

text \<open>The stored instances of a wrapper, whatever the shape of the field.\<close>

fun instances :: "'opt optimizer_field \<Rightarrow> 'opt list" where
  "instances (OptOne opt) = [opt]"
| "instances (OptList opts) = opts"

fun is_opt_list :: "'opt optimizer_field \<Rightarrow> bool" where
  "is_opt_list (OptList opts) = True"
| "is_opt_list (OptOne opt) = False"

text \<open>The calls a client makes on a wrapper after its construction, and the wrapper after them.\<close>

datatype operation = Step | ZeroGrad | LoadStateDict pyval | StateDict

fun run_operation ::
  "'opt optimizer_api \<Rightarrow> operation \<Rightarrow> 'opt OptimizerWrapper \<Rightarrow> 'opt OptimizerWrapper" where
  "run_operation api Step self = fst (step api self)"
| "run_operation api ZeroGrad self = fst (zero_grad api self)"
| "run_operation api (LoadStateDict payload) self = fst (load_state_dict api self payload)"
| "run_operation api StateDict self = self"

fun run_operations ::
  "'opt optimizer_api \<Rightarrow> operation list \<Rightarrow> 'opt OptimizerWrapper \<Rightarrow> 'opt OptimizerWrapper" where
  "run_operations api [] self = self"
| "run_operations api (op # ops) self = run_operations api ops (run_operation api op self)"

text \<open>
  A pair of instances round-trips when loading the serialized state of the first into the
  second raises nothing and leaves the second serializing to that same state.
\<close>

definition instance_round_trip :: "'opt optimizer_api \<Rightarrow> 'opt \<Rightarrow> 'opt \<Rightarrow> bool" where
  "instance_round_trip api a b =
     (case opt_load_state_dict api b (opt_state_dict api a) of
        (b', r) \<Rightarrow> r = None \<and> opt_state_dict api b' = opt_state_dict api a)"

section \<open>A sample optimizer library\<close>

text \<open>
  A small optimizer for concrete runs: an instance records the class and arguments it was
  built from and its serialized state; only classes are callable, loading takes a mapping
  and replaces the state, a step counts in the state.
\<close>

record sample_opt =
  built_from :: pyval
  built_over :: pyval
  defaults :: "(string \<times> pyval) list"
  state :: pyval

definition sample_api :: "sample_opt optimizer_api" where
  "sample_api =
     \<lparr> construct = (\<lambda>c args d.
         if is_type c
         then Inr \<lparr> built_from = c, built_over = args, defaults = d, state = VDict [] \<rparr>
         else Inl (TypeError ''object is not callable'')),
       opt_state_dict = state,
       opt_load_state_dict = (\<lambda>opt sd.
         if is_dict sd then (opt\<lparr> state := sd \<rparr>, None)
         else (opt, Some (ExternalError ''expected a state mapping''))),
       opt_step = (\<lambda>opt. (opt\<lparr> state := VDict [(''step'', VInt 1)] \<rparr>, None)),
       opt_zero_grad = (\<lambda>opt. (opt, None)),
       opt_type_repr = (\<lambda>opt. case built_from opt of VClass c \<Rightarrow> c | v \<Rightarrow> ''object'') \<rparr>"

text \<open>
  Two wrappers over that library, as the constructor returns them: one with an optimizer per
  network, one with a single optimizer over a single network.
\<close>

definition two_agents :: "sample_opt OptimizerWrapper" where
  "two_agents =
     \<lparr> optimizer_cls = VList [VClass ''Adam'', VClass ''SGD''],
       optimizer_kwargs = VList [VDict [(''lr'', VInt 5)], VDict []],
       multiagent = True,
       networks = PyList 9 [Module 3 [10], Module 4 [20]],
       network_names = [''actors''],
       optimizer = OptList
         [\<lparr> built_from = VClass ''Adam'', built_over = VParams [10],
             defaults = [(''lr'', VInt 5)], state = VDict [] \<rparr>,
          \<lparr> built_from = VClass ''SGD'', built_over = VParams [20],
             defaults = [], state = VDict [] \<rparr>] \<rparr>"

definition one_agent :: "sample_opt OptimizerWrapper" where
  "one_agent =
     \<lparr> optimizer_cls = VClass ''Adam'',
       optimizer_kwargs = VDict [(''lr'', VInt 5)],
       multiagent = False,
       networks = PyList 7 [Module 3 [10]],
       network_names = [''actor''],
       optimizer = OptOne
         \<lparr> built_from = VClass ''Adam'', built_over = VParams [10],
            defaults = [(''lr'', VInt 5)], state = VDict [] \<rparr> \<rparr>"

section \<open>Construction: auxiliary facts\<close>

lemma set_networks_total:
  "set_networks nets fresh = Inr (if is_module nets then PyList fresh [nets] else nets)"
  by (simp add: set_networks_def networks_assertion_def py_assert_def)

lemma init_success:
  assumes "init api cls nets kwargs names_arg ma caller_self fresh = (Inr w, calls)"
  shows "\<exists>sn names opt.
           set_networks nets fresh = Inr sn
         \<and> set_network_names ma sn names_arg caller_self = Inr names
         \<and> build_optimizer api cls kwargs ma sn names = (Inr opt, calls)
         \<and> w = \<lparr> optimizer_cls = cls, optimizer_kwargs = kwargs, multiagent = ma,
                   networks = sn, network_names = names, optimizer = opt \<rparr>"
  using assms
  by (auto simp: init_def split: sum.splits prod.splits)

lemma construct_one_success:
  "construct_one api cls args d = (Inr field, calls) \<Longrightarrow>
     \<exists>opt. field = OptOne opt \<and> construct api cls args d = Inr opt \<and> calls = [(cls, args, d)]"
  by (auto simp: construct_one_def split: sum.splits)

lemma construct_one_shape:
  "construct_one api cls args d = (Inr field, calls) \<Longrightarrow> \<not> is_opt_list field"
  by (auto dest: construct_one_success)

lemma build_optimizer_shape:
  assumes "build_optimizer api cls kwargs ma sn names = (Inr field, calls)"
  shows "is_opt_list field = ma"
proof (cases ma)
  case True
  with assms show ?thesis
    by (auto simp: build_optimizer_def Let_def split: sum.splits prod.splits)
next
  case False
  with assms have "\<exists>c a d. construct_one api c a d = (Inr field, calls)"
    unfolding build_optimizer_def Let_def
    by (simp split: sum.splits if_splits) blast+
  with False show ?thesis by (auto dest: construct_one_shape)
qed

lemma init_shape:
  assumes "init api cls nets kwargs names_arg ma caller_self fresh = (Inr w, calls)"
  shows "multiagent w = ma \<and> is_opt_list (optimizer w) = ma"
  using init_success[OF assms] build_optimizer_shape by fastforce

lemma build_per_network_success:
  "build_per_network api cls kwargs i nets = (Inr opts, calls) \<Longrightarrow>
     length opts = length nets \<and> length calls = length nets \<and>
     (\<forall>j < length nets. \<exists>c k ps d.
         select_spec cls (i + j) = Inr c \<and> select_spec kwargs (i + j) = Inr k
       \<and> parameters (nets ! j) = Inr ps \<and> as_mapping k = Inr d
       \<and> construct api c ps d = Inr (opts ! j) \<and> calls ! j = (c, ps, d))"
proof (induction nets arbitrary: i opts calls)
  case Nil
  then show ?case by simp
next
  case (Cons net rest)
  from Cons.prems obtain c k ps d opt opts' calls' where
    h: "select_spec cls i = Inr c" "select_spec kwargs i = Inr k"
       "parameters net = Inr ps" "as_mapping k = Inr d" "construct api c ps d = Inr opt"
       "build_per_network api cls kwargs (Suc i) rest = (Inr opts', calls')"
       "opts = opt # opts'" "calls = (c, ps, d) # calls'"
    by (auto split: sum.splits prod.splits)
  note ih = Cons.IH[OF h(6)]
  show ?case
  proof (intro conjI allI impI)
    show "length opts = length (net # rest)" using ih h(7) by simp
    show "length calls = length (net # rest)" using ih h(8) by simp
  next
    fix j assume j: "j < length (net # rest)"
    show "\<exists>c k ps d. select_spec cls (i + j) = Inr c \<and> select_spec kwargs (i + j) = Inr k
       \<and> parameters ((net # rest) ! j) = Inr ps \<and> as_mapping k = Inr d
       \<and> construct api c ps d = Inr (opts ! j) \<and> calls ! j = (c, ps, d)"
    proof (cases j)
      case 0
      then show ?thesis using h by simp
    next
      case (Suc j')
      then have "j' < length rest" using j by simp
      with ih obtain c' k' ps' d' where
        "select_spec cls (Suc i + j') = Inr c'" "select_spec kwargs (Suc i + j') = Inr k'"
        "parameters (rest ! j') = Inr ps'" "as_mapping k' = Inr d'"
        "construct api c' ps' d' = Inr (opts' ! j')" "calls' ! j' = (c', ps', d')"
        by blast
      then show ?thesis using Suc h(7,8) by simp
    qed
  qed
qed

section \<open>The check on the networks argument\<close>

text \<open>
  C9. The assertion at lines 41 to 45 tests a tuple of two elements, which is true whatever
  the networks are: lines 38 to 46 never raise, and a networks argument that is not a module
  is stored as it is, so a wrapper built from it holds that very value.
\<close>

theorem networks_check_is_vacuous:
  "truthy (networks_assertion nets)
   \<and> (\<forall>e. set_networks nets fresh \<noteq> Inl e)
   \<and> (\<not> is_module nets \<longrightarrow>
        set_networks nets fresh = Inr nets
      \<and> (\<forall>w calls. init api cls nets kwargs names_arg ma caller_self fresh = (Inr w, calls)
             \<longrightarrow> networks w = nets))"
proof (intro conjI allI impI)
  show "truthy (networks_assertion nets)" by (simp add: networks_assertion_def)
next
  fix e show "set_networks nets fresh \<noteq> Inl e" by (simp add: set_networks_total)
next
  assume "\<not> is_module nets"
  then show "set_networks nets fresh = Inr nets" by (simp add: set_networks_total)
next
  fix w calls
  assume nm: "\<not> is_module nets"
    and ok: "init api cls nets kwargs names_arg ma caller_self fresh = (Inr w, calls)"
  from init_success[OF ok] nm show "networks w = nets"
    by (auto simp: set_networks_total)
qed

lemma sample_tuple_init:
  "init sample_api (VClass ''Adam'') (PyTuple 9 [Module 3 [10]]) (VDict []) (Some [''actor''])
      False None 0 =
   (Inr \<lparr> optimizer_cls = VClass ''Adam'', optimizer_kwargs = VDict [], multiagent = False,
          networks = PyTuple 9 [Module 3 [10]], network_names = [''actor''],
          optimizer = OptOne \<lparr> built_from = VClass ''Adam'', built_over = VParams [10],
                                defaults = [], state = VDict [] \<rparr> \<rparr>,
    [(VClass ''Adam'', VParams [10], [])])"
  by (simp add: init_def set_networks_def networks_assertion_def py_assert_def
        set_network_names_def build_optimizer_def construct_one_def sample_api_def)

theorem networks_check_is_vacuous_witness:
  "\<not> is_module (PyTuple 9 [Module 3 [10]])
   \<and> \<not> networks_condition (PyTuple 9 [Module 3 [10]])
   \<and> truthy (networks_assertion (PyTuple 9 [Module 3 [10]]))
   \<and> set_networks (PyTuple 9 [Module 3 [10]]) 0 = Inr (PyTuple 9 [Module 3 [10]])
   \<and> (\<exists>w calls.
         init sample_api (VClass ''Adam'') (PyTuple 9 [Module 3 [10]]) (VDict [])
           (Some [''actor'']) False None 0 = (Inr w, calls)
       \<and> networks w = PyTuple 9 [Module 3 [10]])"
  using networks_check_is_vacuous[of "PyTuple 9 [Module 3 [10]]" 0 sample_api "VClass ''Adam''"
          "VDict []" "Some [''actor'']" False None]
  by (simp add: sample_tuple_init)

section \<open>Attribute resolution by identity\<close>

lemma infer_names_single:
  "py_iter nets = Inr xs \<Longrightarrow>
   infer_network_attr_names False nets container =
     Inr (map fst (filter (\<lambda>(name, v). \<exists>net \<in> set xs. py_id v = py_id net) container))"
  by (induction container) (auto simp: match_condition_def list_ex_iff)

lemma infer_names_multi:
  "infer_network_attr_names True nets container =
     Inr (map fst (filter (\<lambda>(name, v). py_id v = py_id nets) container))"
  by (induction container) (auto simp: match_condition_def)

text \<open>
  C3. Over a container and networks that can be iterated, the resolver returns, in the
  container's order, exactly the names of the fields whose value has the identity of one of
  the networks when \<open>multiagent\<close> is off, and exactly the names of the fields whose value has
  the identity of the networks list itself when it is on. In particular a field whose
  value has the identity of none of the networks is not returned, whatever its contents.
\<close>

theorem resolver_matches_by_identity:
  "(\<forall>xs. py_iter nets = Inr xs \<longrightarrow>
      infer_network_attr_names False nets container =
        Inr (map fst (filter (\<lambda>(name, v). \<exists>net \<in> set xs. py_id v = py_id net) container)))
   \<and> infer_network_attr_names True nets container =
        Inr (map fst (filter (\<lambda>(name, v). py_id v = py_id nets) container))
   \<and> (\<forall>xs names name v.
        py_iter nets = Inr xs
        \<and> infer_network_attr_names False nets container = Inr names
        \<and> distinct (map fst container) \<and> (name, v) \<in> set container
        \<and> (\<forall>net \<in> set xs. py_id v \<noteq> py_id net)
        \<longrightarrow> name \<notin> set names)"
proof (intro conjI allI impI)
  fix xs assume "py_iter nets = Inr xs"
  then show "infer_network_attr_names False nets container =
        Inr (map fst (filter (\<lambda>(name, v). \<exists>net \<in> set xs. py_id v = py_id net) container))"
    by (rule infer_names_single)
next
  show "infer_network_attr_names True nets container =
        Inr (map fst (filter (\<lambda>(name, v). py_id v = py_id nets) container))"
    by (rule infer_names_multi)
next
  fix xs names name v
  assume h: "py_iter nets = Inr xs
        \<and> infer_network_attr_names False nets container = Inr names
        \<and> distinct (map fst container) \<and> (name, v) \<in> set container
        \<and> (\<forall>net \<in> set xs. py_id v \<noteq> py_id net)"
  then have names: "names = map fst (filter (\<lambda>(name, v). \<exists>net \<in> set xs. py_id v = py_id net) container)"
    using infer_names_single[of nets xs container] by simp
  show "name \<notin> set names"
  proof
    assume "name \<in> set names"
    then obtain v' where v': "(name, v') \<in> set container" "\<exists>net \<in> set xs. py_id v' = py_id net"
      unfolding names by force
    from h v'(1) have "v' = v"
      by (meson eq_key_imp_eq_value)
    with v'(2) h show False by auto
  qed
qed

theorem resolver_matches_by_identity_witness:
  "py_iter (PyList 9 [Module 4 [10]]) = Inr [Module 4 [10]]
   \<and> infer_network_attr_names False (PyList 9 [Module 4 [10]])
        [(''x'', Module 3 [10]), (''actor'', Module 4 [10])] = Inr [''actor'']
   \<and> distinct (map fst [(''x'', Module 3 [10]), (''actor'', Module 4 [10])])
   \<and> (''x'', Module 3 [10]) \<in> set [(''x'', Module 3 [10]), (''actor'', Module 4 [10])]
   \<and> py_id (Module 3 [10]) \<noteq> py_id (Module 4 [10])
   \<and> ''x'' \<notin> set [''actor'']
   \<and> infer_network_attr_names True (PyList 9 [Module 4 [10]])
        [(''x'', Module 4 [10]), (''actors'', PyList 9 [])] = Inr [''actors'']"
  using resolver_matches_by_identity[of "PyList 9 [Module 4 [10]]"
          "[(''x'', Module 3 [10]), (''actor'', Module 4 [10])]"]
        resolver_matches_by_identity[of "PyList 9 [Module 4 [10]]"
          "[(''x'', Module 4 [10]), (''actors'', PyList 9 [])]"]
  by simp

section \<open>Construction without names\<close>

lemma set_network_names_nonempty:
  "set_network_names ma sn names_arg caller_self = Inr names \<Longrightarrow> names \<noteq> []"
  by (auto simp: set_network_names_def py_assert_def split: sum.splits if_splits)

text \<open>
  C2. Without explicit names, when the resolver returns no name the construction ends with
  the assertion error of line 56, before any optimizer constructor is called; and every
  wrapper that a construction returns has at least one network name.
\<close>

theorem no_names_no_wrapper:
  "(\<forall>sn container.
      set_networks nets fresh = Inr sn
      \<and> infer_network_attr_names ma sn container = Inr []
      \<longrightarrow> init api cls nets kwargs None ma (Some container) fresh =
            (Inl (AssertionError ''No networks found in the parent container.''), []))
   \<and> (\<forall>w calls.
        init api cls nets kwargs names_arg ma caller_self fresh = (Inr w, calls)
        \<longrightarrow> network_names w \<noteq> [])"
proof (intro conjI allI impI)
  fix sn container
  assume "set_networks nets fresh = Inr sn \<and> infer_network_attr_names ma sn container = Inr []"
  then show "init api cls nets kwargs None ma (Some container) fresh =
            (Inl (AssertionError ''No networks found in the parent container.''), [])"
    by (simp add: init_def set_network_names_def infer_parent_container_def py_assert_def)
next
  fix w calls
  assume "init api cls nets kwargs names_arg ma caller_self fresh = (Inr w, calls)"
  from init_success[OF this] show "network_names w \<noteq> []"
    by (auto dest: set_network_names_nonempty)
qed

theorem no_names_no_wrapper_witness:
  "set_networks (Module 4 [10]) 7 = Inr (PyList 7 [Module 4 [10]])
   \<and> infer_network_attr_names False (PyList 7 [Module 4 [10]]) [(''x'', Module 3 [10])] = Inr []
   \<and> init sample_api (VClass ''Adam'') (Module 4 [10]) (VDict []) None False
        (Some [(''x'', Module 3 [10])]) 7 =
      (Inl (AssertionError ''No networks found in the parent container.''), [])
   \<and> (\<exists>w calls.
        init sample_api (VClass ''Adam'') (Module 4 [10]) (VDict []) None False
          (Some [(''actor'', Module 4 [10])]) 7 = (Inr w, calls)
        \<and> network_names w = [''actor''] \<and> network_names w \<noteq> [])"
  using no_names_no_wrapper[of "Module 4 [10]" 7 False sample_api "VClass ''Adam''" "VDict []"
          None "Some [(''actor'', Module 4 [10])]"]
  by (simp add: init_def set_networks_def networks_assertion_def py_assert_def
        set_network_names_def infer_parent_container_def match_condition_def
        build_optimizer_def construct_one_def sample_api_def)

section \<open>One optimizer per network\<close>

text \<open>
  C4. A construction with \<open>multiagent\<close> set that returns a wrapper over \<open>N\<close> networks has
  made exactly \<open>N\<close> constructor calls and stores their \<open>N\<close> results in order, however many
  names were resolved: the \<open>i\<close>-th instance is built from the parameters of the \<open>i\<close>-th
  network, with the \<open>i\<close>-th class and keywords where those arguments are lists and with the
  shared class and keywords otherwise.
\<close>

theorem multiagent_one_optimizer_per_network:
  assumes "init api cls nets kwargs names_arg True caller_self fresh = (Inr w, calls)"
  shows "\<exists>xs opts.
           py_iter (networks w) = Inr xs \<and> optimizer w = OptList opts
         \<and> length opts = length xs \<and> length calls = length xs
         \<and> (\<forall>i < length xs. \<exists>ps d.
               parameters (xs ! i) = Inr ps
             \<and> (is_list cls \<longrightarrow> i < length (list_items cls))
             \<and> (is_list kwargs \<longrightarrow> i < length (list_items kwargs))
             \<and> as_mapping (if is_list kwargs then list_items kwargs ! i else kwargs) = Inr d
             \<and> construct api (if is_list cls then list_items cls ! i else cls) ps d
                 = Inr (opts ! i)
             \<and> calls ! i = (if is_list cls then list_items cls ! i else cls, ps, d))"
proof -
  from init_success[OF assms] obtain sn names field where
    b: "build_optimizer api cls kwargs True sn names = (Inr field, calls)"
    and w: "w = \<lparr> optimizer_cls = cls, optimizer_kwargs = kwargs, multiagent = True,
                   networks = sn, network_names = names, optimizer = field \<rparr>"
    by blast
  from b obtain xs opts where
    xs: "py_iter sn = Inr xs" and field: "field = OptList opts"
    and bp: "build_per_network api cls kwargs 0 xs = (Inr opts, calls)"
    by (auto simp: build_optimizer_def Let_def split: sum.splits prod.splits)
  note facts = build_per_network_success[OF bp]
  have sel: "\<And>v i c. select_spec v i = Inr c \<Longrightarrow>
               (is_list v \<longrightarrow> i < length (list_items v))
             \<and> c = (if is_list v then list_items v ! i else v)"
    by (case_tac v) (auto split: if_splits)
  have "\<forall>i < length xs. \<exists>ps d.
               parameters (xs ! i) = Inr ps
             \<and> (is_list cls \<longrightarrow> i < length (list_items cls))
             \<and> (is_list kwargs \<longrightarrow> i < length (list_items kwargs))
             \<and> as_mapping (if is_list kwargs then list_items kwargs ! i else kwargs) = Inr d
             \<and> construct api (if is_list cls then list_items cls ! i else cls) ps d
                 = Inr (opts ! i)
             \<and> calls ! i = (if is_list cls then list_items cls ! i else cls, ps, d)"
  proof (intro allI impI)
    fix i assume "i < length xs"
    with facts obtain c k ps d where
      h: "select_spec cls i = Inr c" "select_spec kwargs i = Inr k"
         "parameters (xs ! i) = Inr ps" "as_mapping k = Inr d"
         "construct api c ps d = Inr (opts ! i)" "calls ! i = (c, ps, d)"
      by fastforce
    from sel[OF h(1)] sel[OF h(2)] h(3-6)
    show "\<exists>ps d.
               parameters (xs ! i) = Inr ps
             \<and> (is_list cls \<longrightarrow> i < length (list_items cls))
             \<and> (is_list kwargs \<longrightarrow> i < length (list_items kwargs))
             \<and> as_mapping (if is_list kwargs then list_items kwargs ! i else kwargs) = Inr d
             \<and> construct api (if is_list cls then list_items cls ! i else cls) ps d
                 = Inr (opts ! i)
             \<and> calls ! i = (if is_list cls then list_items cls ! i else cls, ps, d)"
      by (intro exI[of _ ps] exI[of _ d]) simp
  qed
  with xs field facts w show ?thesis by simp
qed

section \<open>Sample runs\<close>

lemmas init_defs = init_def set_networks_def networks_assertion_def py_assert_def
  set_network_names_def infer_parent_container_def match_condition_def
  build_optimizer_def construct_one_def sample_api_def

lemmas operation_defs = step_def zero_grad_def delegate_def load_state_dict_def
  state_dict_def getitem_def optimizer_subscript_def topology_of_def
  instance_round_trip_def py_assert_def sample_api_def

lemma two_agents_init:
  "init sample_api (VList [VClass ''Adam'', VClass ''SGD''])
      (PyList 9 [Module 3 [10], Module 4 [20]])
      (VList [VDict [(''lr'', VInt 5)], VDict []]) None True
      (Some [(''critic'', Module 5 [30]), (''actors'', PyList 9 [Module 3 [10], Module 4 [20]])])
      0 =
   (Inr two_agents,
    [(VClass ''Adam'', VParams [10], [(''lr'', VInt 5)]), (VClass ''SGD'', VParams [20], [])])"
  by (simp add: init_defs two_agents_def)

lemma two_agents_again:
  "init sample_api (VList [VClass ''Adam'', VClass ''SGD''])
      (PyList 9 [Module 3 [10], Module 4 [20]])
      (VList [VDict [(''lr'', VInt 5)], VDict []]) (Some [''actors'']) True None 0 =
   (Inr two_agents,
    [(VClass ''Adam'', VParams [10], [(''lr'', VInt 5)]), (VClass ''SGD'', VParams [20], [])])"
  by (simp add: init_defs two_agents_def)

lemma one_agent_init:
  "init sample_api (VClass ''Adam'') (Module 3 [10]) (VDict [(''lr'', VInt 5)]) None False
      (Some [(''actor'', Module 3 [10]), (''twin'', Module 4 [10])]) 7 =
   (Inr one_agent, [(VClass ''Adam'', VParams [10], [(''lr'', VInt 5)])])"
  by (simp add: init_defs one_agent_def)

theorem multiagent_one_optimizer_per_network_witness:
  "init sample_api (VList [VClass ''Adam'', VClass ''SGD''])
      (PyList 9 [Module 3 [10], Module 4 [20]])
      (VList [VDict [(''lr'', VInt 5)], VDict []]) None True
      (Some [(''critic'', Module 5 [30]), (''actors'', PyList 9 [Module 3 [10], Module 4 [20]])])
      0 =
   (Inr two_agents,
    [(VClass ''Adam'', VParams [10], [(''lr'', VInt 5)]), (VClass ''SGD'', VParams [20], [])])
   \<and> network_names two_agents = [''actors'']
   \<and> (\<exists>xs opts. py_iter (networks two_agents) = Inr xs \<and> optimizer two_agents = OptList opts
         \<and> length xs = 2 \<and> length opts = length xs)"
proof -
  have "network_names two_agents = [''actors'']"
    and "py_iter (networks two_agents) = Inr [Module 3 [10], Module 4 [20]]"
    by (simp_all add: two_agents_def)
  with multiagent_one_optimizer_per_network[OF two_agents_init] two_agents_init
  show ?thesis by auto
qed

section \<open>The single-network branch\<close>

text \<open>
  C1. The last branch of the constructor (lines 87 to 94) is taken whenever \<open>multiagent\<close>
  is off and the networks and the names are not both several. With two networks and one
  name it returns a wrapper that holds both networks, with one optimizer built over the
  parameters of the first network only: a wrapper of this branch need not hold exactly one
  network.
\<close>

theorem single_branch_with_two_networks:
  "init sample_api (VClass ''Adam'') (PyList 9 [Module 3 [10], Module 4 [20]]) (VDict [])
      (Some [''actor'']) False None 0 =
   (Inr \<lparr> optimizer_cls = VClass ''Adam'', optimizer_kwargs = VDict [], multiagent = False,
          networks = PyList 9 [Module 3 [10], Module 4 [20]], network_names = [''actor''],
          optimizer = OptOne \<lparr> built_from = VClass ''Adam'', built_over = VParams [10],
                                defaults = [], state = VDict [] \<rparr> \<rparr>,
    [(VClass ''Adam'', VParams [10], [])])
   \<and> topology_of \<lparr> optimizer_cls = VClass ''Adam'', optimizer_kwargs = VDict [],
          multiagent = False,
          networks = PyList 9 [Module 3 [10], Module 4 [20]], network_names = [''actor''],
          optimizer = OptOne \<lparr> built_from = VClass ''Adam'', built_over = VParams [10],
                                defaults = [], state = VDict [] \<rparr> \<rparr> = SINGLE
   \<and> py_len (PyList 9 [Module 3 [10], Module 4 [20]]) = Inr 2"
  by (simp add: init_def set_networks_def networks_assertion_def py_assert_def
        set_network_names_def build_optimizer_def construct_one_def sample_api_def
        topology_of_def)

text \<open>
  What the branch does establish: one constructor call, over the parameters of the first
  network, with the keyword mapping as given.
\<close>

lemma single_branch_builds_over_first_network:
  assumes "init api cls nets kwargs names_arg False caller_self fresh = (Inr w, calls)"
    and "topology_of w = SINGLE"
  shows "\<exists>net ps d opt.
           py_first (networks w) = Inr net \<and> parameters net = Inr ps
         \<and> kwargs = VDict d \<and> construct api cls ps d = Inr opt
         \<and> optimizer w = OptOne opt \<and> calls = [(cls, ps, d)]"
proof -
  from init_success[OF assms(1)] obtain sn names field where
    b: "build_optimizer api cls kwargs False sn names = (Inr field, calls)"
    and w: "w = \<lparr> optimizer_cls = cls, optimizer_kwargs = kwargs, multiagent = False,
                   networks = sn, network_names = names, optimizer = field \<rparr>"
    by blast
  from assms(2) w have t: "\<not> ((case py_len sn of Inl e \<Rightarrow> False | Inr n \<Rightarrow> n > 1) \<and> length names > 1)"
    by (auto simp: topology_of_def split: if_splits)
  from b t obtain net ps d where
    "py_first sn = Inr net" "parameters net = Inr ps" "as_mapping kwargs = Inr d"
    "construct_one api cls ps d = (Inr field, calls)"
    unfolding build_optimizer_def Let_def py_assert_def
    by (simp split: sum.splits if_splits)
  moreover from this have "kwargs = VDict d" by (cases kwargs) auto
  ultimately show ?thesis using w by (auto dest!: construct_one_success)
qed

section \<open>The shape of the optimizer field\<close>

lemma for_each_length: "for_each m opts = (opts', r) \<Longrightarrow> length opts' = length opts"
  by (induction opts arbitrary: opts' r) (auto split: prod.splits option.splits)

lemma load_each_length:
  "load_each api sds i opts = (opts', r) \<Longrightarrow> length opts' = length opts"
  by (induction opts arbitrary: i opts' r) (auto split: prod.splits option.splits if_splits)

lemma delegate_shape:
  "multiagent (fst (delegate m name self)) = multiagent self
   \<and> is_opt_list (optimizer (fst (delegate m name self))) = is_opt_list (optimizer self)
   \<and> length (instances (optimizer (fst (delegate m name self))))
       = length (instances (optimizer self))
   \<and> networks (fst (delegate m name self)) = networks self
   \<and> network_names (fst (delegate m name self)) = network_names self"
proof (cases "optimizer self")
  case (OptOne opt)
  then show ?thesis by (simp add: delegate_def split: prod.splits)
next
  case (OptList opts)
  then show ?thesis
    by (auto simp: delegate_def split: prod.splits dest: for_each_length)
qed

lemma load_state_dict_shape:
  "multiagent (fst (load_state_dict api self payload)) = multiagent self
   \<and> is_opt_list (optimizer (fst (load_state_dict api self payload)))
       = is_opt_list (optimizer self)
   \<and> length (instances (optimizer (fst (load_state_dict api self payload))))
       = length (instances (optimizer self))
   \<and> networks (fst (load_state_dict api self payload)) = networks self
   \<and> network_names (fst (load_state_dict api self payload)) = network_names self"
proof (cases "optimizer self")
  case (OptOne opt)
  then show ?thesis
    by (simp add: load_state_dict_def py_assert_def split: prod.splits)
next
  case (OptList opts)
  then show ?thesis
    by (auto simp: load_state_dict_def py_assert_def split: prod.splits dest: load_each_length)
qed

lemma run_operation_shape:
  "multiagent (run_operation api op self) = multiagent self
   \<and> is_opt_list (optimizer (run_operation api op self)) = is_opt_list (optimizer self)
   \<and> length (instances (optimizer (run_operation api op self)))
       = length (instances (optimizer self))
   \<and> networks (run_operation api op self) = networks self
   \<and> network_names (run_operation api op self) = network_names self"
  by (cases op) (simp_all add: step_def zero_grad_def delegate_shape load_state_dict_shape)

lemma run_operations_shape:
  "multiagent (run_operations api ops self) = multiagent self
   \<and> is_opt_list (optimizer (run_operations api ops self)) = is_opt_list (optimizer self)
   \<and> length (instances (optimizer (run_operations api ops self)))
       = length (instances (optimizer self))
   \<and> networks (run_operations api ops self) = networks self
   \<and> network_names (run_operations api ops self) = network_names self"
  by (induction ops arbitrary: self) (simp_all add: run_operation_shape)

lemma constructed_shape:
  assumes "init api cls nets kwargs names_arg ma caller_self fresh = (Inr w0, calls)"
  shows "multiagent (run_operations api ops w0) = ma
       \<and> is_opt_list (optimizer (run_operations api ops w0)) = ma"
  using init_shape[OF assms] run_operations_shape[of api ops w0] by simp

lemma is_opt_list_cases:
  "is_opt_list field \<Longrightarrow> \<exists>opts. field = OptList opts"
  "\<not> is_opt_list field \<Longrightarrow> \<exists>opt. field = OptOne opt"
  by (cases field; simp)+

lemma constructed_cases:
  assumes "init api cls nets kwargs names_arg ma caller_self fresh = (Inr w0, calls)"
  shows "multiagent (run_operations api ops w0) = ma"
    and "ma \<Longrightarrow> \<exists>opts. optimizer (run_operations api ops w0) = OptList opts"
    and "\<not> ma \<Longrightarrow> \<exists>opt. optimizer (run_operations api ops w0) = OptOne opt"
  using constructed_shape[OF assms, of ops] is_opt_list_cases by auto

text \<open>
  C10. A construction that returns a wrapper stores a list of instances exactly when
  \<open>multiagent\<close> was set, and the flag and the shape of the field stay so after any sequence
  of \<open>step\<close>, \<open>zero_grad\<close>, \<open>state_dict\<close> and \<open>load_state_dict\<close> calls, whatever they
  raise.
\<close>

theorem optimizer_shape_follows_multiagent:
  assumes "init api cls nets kwargs names_arg ma caller_self fresh = (Inr w, calls)"
  shows "multiagent w = ma \<and> (is_opt_list (optimizer w) \<longleftrightarrow> ma)
       \<and> (\<forall>ops. multiagent (run_operations api ops w) = ma
              \<and> (is_opt_list (optimizer (run_operations api ops w)) \<longleftrightarrow> ma))"
  using init_shape[OF assms] constructed_shape[OF assms] by simp

theorem optimizer_shape_follows_multiagent_witness:
  "multiagent two_agents \<and> is_opt_list (optimizer two_agents)
   \<and> is_opt_list (optimizer (run_operations sample_api
        [Step, ZeroGrad, LoadStateDict (VList [VDict [], VDict []]), StateDict, LoadStateDict VNone]
        two_agents))
   \<and> \<not> multiagent one_agent
   \<and> \<not> is_opt_list (optimizer (run_operations sample_api
        [Step, LoadStateDict (VDict []), ZeroGrad] one_agent))"
  using optimizer_shape_follows_multiagent[OF two_agents_init]
    optimizer_shape_follows_multiagent[OF one_agent_init]
  by blast

section \<open>Indexing\<close>

text \<open>
  C8. On a wrapper built with \<open>multiagent\<close> set, \<open>wrapper[i]\<close> for \<open>0 \<le> i < N\<close> is the
  \<open>i\<close>-th stored instance; on a wrapper built without it, \<open>wrapper[i]\<close> raises the
  \<open>TypeError\<close> of line 100, whose message names the type of the single instance.
\<close>

theorem getitem_by_shape:
  assumes "init api cls nets kwargs names_arg ma caller_self fresh = (Inr w0, calls)"
    and "w = run_operations api ops w0"
  shows "(ma \<longrightarrow>
            (\<exists>opts. optimizer w = OptList opts
                  \<and> (\<forall>i. 0 \<le> i \<and> i < int (length opts)
                         \<longrightarrow> getitem api w i = Inr (opts ! nat i))))
       \<and> (\<not> ma \<longrightarrow>
            (\<exists>opt. optimizer w = OptOne opt
                  \<and> (\<forall>i. getitem api w i =
                          Inl (TypeError (''Can't access item of a single ''
                                 @ opt_type_repr api opt @ '' object.'')))))"
proof -
  note c = constructed_cases[OF assms(1), of ops, folded assms(2)]
  show ?thesis
  proof (cases ma)
    case True
    with c obtain opts where "optimizer w = OptList opts" by auto
    with True show ?thesis by (simp add: getitem_def optimizer_subscript_def)
  next
    case False
    with c obtain opt where "optimizer w = OptOne opt" by auto
    with False show ?thesis by (simp add: getitem_def optimizer_subscript_def)
  qed
qed

theorem getitem_by_shape_witness:
  "getitem sample_api (run_operations sample_api [Step] two_agents) 1 =
     Inr \<lparr> built_from = VClass ''SGD'', built_over = VParams [20],
            defaults = [], state = VDict [(''step'', VInt 1)] \<rparr>
   \<and> getitem sample_api one_agent 0 =
       Inl (TypeError ''Can't access item of a single Adam object.'')"
proof -
  have "getitem sample_api (run_operations sample_api [Step] two_agents) 1 =
     Inr \<lparr> built_from = VClass ''SGD'', built_over = VParams [20],
            defaults = [], state = VDict [(''step'', VInt 1)] \<rparr>"
    and "getitem sample_api one_agent 0 =
       Inl (TypeError ''Can't access item of a single Adam object.'')"
    by (simp_all add: two_agents_def one_agent_def operation_defs)
  with getitem_by_shape[OF two_agents_init refl, of "[Step]"]
    getitem_by_shape[OF one_agent_init refl, of "[]"]
  show ?thesis by simp
qed

section \<open>Serialized state\<close>

text \<open>
  C7. \<open>state_dict\<close> of a wrapper with an optimizer per network is the list of the
  serialized states of the stored instances, in their order; for the two other topologies
  it is the serialized state of the single stored instance itself, not a list around it.
\<close>

theorem state_dict_by_topology:
  assumes "init api cls nets kwargs names_arg ma caller_self fresh = (Inr w0, calls)"
    and "w = run_operations api ops w0"
  shows "(topology_of w = PER_NETWORK \<longleftrightarrow> ma)
       \<and> (topology_of w = PER_NETWORK \<longrightarrow>
            (\<exists>opts. optimizer w = OptList opts
                  \<and> state_dict api w = Inr (VList (map (opt_state_dict api) opts))))
       \<and> (topology_of w = SINGLE \<or> topology_of w = POOLED \<longrightarrow>
            (\<exists>opt. optimizer w = OptOne opt
                  \<and> state_dict api w = Inr (opt_state_dict api opt)))"
proof -
  note c = constructed_cases[OF assms(1), of ops, folded assms(2)]
  have t: "topology_of w = PER_NETWORK \<longleftrightarrow> ma"
    using c(1) by (simp add: topology_of_def)
  show ?thesis
  proof (cases ma)
    case True
    with c obtain opts where "optimizer w = OptList opts" by auto
    with True c(1) t show ?thesis by (simp add: state_dict_def)
  next
    case False
    with c obtain opt where "optimizer w = OptOne opt" by auto
    with False c(1) t show ?thesis by (simp add: state_dict_def)
  qed
qed

theorem state_dict_by_topology_witness:
  "topology_of (run_operations sample_api [Step] two_agents) = PER_NETWORK
   \<and> state_dict sample_api (run_operations sample_api [Step] two_agents) =
       Inr (VList [VDict [(''step'', VInt 1)], VDict [(''step'', VInt 1)]])
   \<and> topology_of one_agent = SINGLE
   \<and> state_dict sample_api one_agent = Inr (VDict [])"
proof -
  have "state_dict sample_api (run_operations sample_api [Step] two_agents) =
       Inr (VList [VDict [(''step'', VInt 1)], VDict [(''step'', VInt 1)]])"
    and "topology_of one_agent = SINGLE"
    and "state_dict sample_api one_agent = Inr (VDict [])"
    by (simp_all add: two_agents_def one_agent_def operation_defs)
  with state_dict_by_topology[OF two_agents_init refl, of "[Step]"]
    state_dict_by_topology[OF one_agent_init refl, of "[]"]
  show ?thesis by simp
qed

text \<open>
  C5. On a wrapper with an optimizer per network, \<open>load_state_dict\<close> with a payload that
  is not a list of as many elements as there are stored instances raises the assertion error
  of line 148 and leaves the wrapper, hence every stored instance, as it was, whatever the
  instances' own \<open>load_state_dict\<close> does.
\<close>

theorem load_state_dict_rejects_wrong_length:
  assumes "init api cls nets kwargs names_arg True caller_self fresh = (Inr w0, calls)"
    and "w = run_operations api ops w0"
  shows "\<exists>opts. optimizer w = OptList opts
         \<and> (\<forall>payload.
               \<not> (is_list payload \<and> length (list_items payload) = length opts)
               \<longrightarrow> load_state_dict api w payload =
                     (w, Some (AssertionError
                        ''Expected a list of optimizer state dictionaries for multi-agent optimizers.'')))"
proof -
  from constructed_cases[OF assms(1), of ops] assms(2) obtain opts where
    m: "multiagent w" and o: "optimizer w = OptList opts" by auto
  have "\<forall>payload.
               \<not> (is_list payload \<and> length (list_items payload) = length opts)
               \<longrightarrow> load_state_dict api w payload =
                     (w, Some (AssertionError
                        ''Expected a list of optimizer state dictionaries for multi-agent optimizers.''))"
    using m o by (auto simp: load_state_dict_def py_assert_def)
  with o show ?thesis by blast
qed

theorem load_state_dict_rejects_wrong_length_witness:
  "init sample_api (VList [VClass ''Adam'', VClass ''SGD''])
      (PyList 9 [Module 3 [10], Module 4 [20]])
      (VList [VDict [(''lr'', VInt 5)], VDict []]) None True
      (Some [(''critic'', Module 5 [30]), (''actors'', PyList 9 [Module 3 [10], Module 4 [20]])])
      0 =
   (Inr two_agents,
    [(VClass ''Adam'', VParams [10], [(''lr'', VInt 5)]), (VClass ''SGD'', VParams [20], [])])
   \<and> length (instances (optimizer (run_operations sample_api [Step] two_agents))) = 2
   \<and> load_state_dict sample_api (run_operations sample_api [Step] two_agents)
        (VList [VDict []]) =
      (run_operations sample_api [Step] two_agents,
       Some (AssertionError
         ''Expected a list of optimizer state dictionaries for multi-agent optimizers.''))
   \<and> load_state_dict sample_api (run_operations sample_api [Step] two_agents) (VDict []) =
      (run_operations sample_api [Step] two_agents,
       Some (AssertionError
         ''Expected a list of optimizer state dictionaries for multi-agent optimizers.''))"
proof -
  from load_state_dict_rejects_wrong_length[OF two_agents_init refl, of "[Step]"]
  obtain opts where
    o: "optimizer (run_operations sample_api [Step] two_agents) = OptList opts"
    and r: "\<And>payload.
               \<not> (is_list payload \<and> length (list_items payload) = length opts)
               \<Longrightarrow> load_state_dict sample_api (run_operations sample_api [Step] two_agents) payload =
                     (run_operations sample_api [Step] two_agents, Some (AssertionError
                        ''Expected a list of optimizer state dictionaries for multi-agent optimizers.''))"
    by blast
  have "length (instances (optimizer (run_operations sample_api [Step] two_agents))) = 2"
    by (simp add: two_agents_def operation_defs)
  with o have len: "length opts = 2" by simp
  from len o r[of "VList [VDict []]"] r[of "VDict []"] two_agents_init
  show ?thesis by simp
qed

lemma multiagent_count:
  assumes "init api cls nets kwargs names_arg True caller_self fresh = (Inr w0, calls)"
  shows "py_len (if is_module nets then PyList fresh [nets] else nets)
           = Inr (length (instances (optimizer w0)))"
proof -
  from init_success[OF assms] obtain sn names field where
    sn: "set_networks nets fresh = Inr sn"
    and b: "build_optimizer api cls kwargs True sn names = (Inr field, calls)"
    and w: "optimizer w0 = field"
    by auto
  from b obtain xs opts where
    xs: "py_iter sn = Inr xs" and field: "field = OptList opts"
    and bp: "build_per_network api cls kwargs 0 xs = (Inr opts, calls)"
    by (auto simp: build_optimizer_def Let_def split: sum.splits prod.splits)
  from xs have "py_len sn = Inr (length xs)" by (cases sn) auto
  with build_per_network_success[OF bp] sn field w show ?thesis
    by (simp add: set_networks_total)
qed

lemma py_len_fresh:
  "py_len (if is_module nets then PyList f1 [nets] else nets)
     = py_len (if is_module nets then PyList f2 [nets] else nets)"
  by simp

lemma load_each_round_trip:
  "length sds = i + length bs \<Longrightarrow>
   (\<forall>j < length bs.
      case opt_load_state_dict api (bs ! j) (sds ! (i + j)) of
        (b', r) \<Rightarrow> r = None \<and> opt_state_dict api b' = sds ! (i + j)) \<Longrightarrow>
   \<exists>bs'. load_each api sds i bs = (bs', None) \<and> map (opt_state_dict api) bs' = drop i sds"
proof (induction bs arbitrary: i)
  case Nil
  then show ?case by simp
next
  case (Cons b bs)
  from Cons.prems(2)[rule_format, of 0] obtain b' where
    b': "opt_load_state_dict api b (sds ! i) = (b', None)" "opt_state_dict api b' = sds ! i"
    by (auto split: prod.splits)
  have "\<forall>j < length bs.
      case opt_load_state_dict api (bs ! j) (sds ! (Suc i + j)) of
        (b', r) \<Rightarrow> r = None \<and> opt_state_dict api b' = sds ! (Suc i + j)"
    using Cons.prems(2) by (auto dest: spec[of _ "Suc j" for j])
  with Cons.IH[of "Suc i"] Cons.prems(1) obtain bs' where
    bs': "load_each api sds (Suc i) bs = (bs', None)"
         "map (opt_state_dict api) bs' = drop (Suc i) sds"
    by auto
  from Cons.prems(1) have i: "i < length sds" by simp
  then have "drop i sds = sds ! i # drop (Suc i) sds"
    by (simp add: Cons_nth_drop_Suc)
  with b' bs' i show ?case by simp
qed

text \<open>
  C6. Two wrappers built over the same networks with the same \<open>multiagent\<close> flag, each
  after any calls: when each stored instance of the second round-trips the serialized state
  of the instance of the first at the same position (and, for a single instance, that state
  is a mapping), loading the first wrapper's \<open>state_dict\<close> into the second raises nothing
  and leaves the second wrapper's \<open>state_dict\<close> equal to the first's.
\<close>

theorem state_dict_round_trip:
  assumes b1: "init api cls1 nets kwargs1 names1 ma caller1 fresh1 = (Inr v1, calls1)"
    and b2: "init api cls2 nets kwargs2 names2 ma caller2 fresh2 = (Inr v2, calls2)"
    and w1: "w1 = run_operations api ops1 v1"
    and w2: "w2 = run_operations api ops2 v2"
    and rt: "\<forall>(a, b) \<in> set (zip (instances (optimizer w1)) (instances (optimizer w2))).
               instance_round_trip api a b"
    and dict: "\<not> ma \<longrightarrow> (\<forall>a \<in> set (instances (optimizer w1)). is_dict (opt_state_dict api a))"
  shows "\<exists>sd w2'. state_dict api w1 = Inr sd
                \<and> load_state_dict api w2 sd = (w2', None)
                \<and> state_dict api w2' = Inr sd"
proof (cases ma)
  case True
  note c1 = constructed_cases[OF b1, of ops1, folded w1]
  note c2 = constructed_cases[OF b2, of ops2, folded w2]
  from c1 c2 True obtain as bs where
    as: "optimizer w1 = OptList as" and bs: "optimizer w2 = OptList bs" by auto
  have "length (instances (optimizer w1)) = length (instances (optimizer v1))"
    "length (instances (optimizer w2)) = length (instances (optimizer v2))"
    using run_operations_shape[of api ops1 v1] run_operations_shape[of api ops2 v2] w1 w2
    by simp_all
  moreover have "length (instances (optimizer v1)) = length (instances (optimizer v2))"
  proof -
    from b1 True have t1: "init api cls1 nets kwargs1 names1 True caller1 fresh1 = (Inr v1, calls1)"
      by simp
    from b2 True have t2: "init api cls2 nets kwargs2 names2 True caller2 fresh2 = (Inr v2, calls2)"
      by simp
    show ?thesis
      using multiagent_count[OF t1] multiagent_count[OF t2] py_len_fresh[of nets fresh1 fresh2]
      by simp
  qed
  ultimately have len: "length as = length bs" using as bs by simp
  let ?sds = "map (opt_state_dict api) as"
  have "\<forall>j < length bs.
      case opt_load_state_dict api (bs ! j) (?sds ! (0 + j)) of
        (b', r) \<Rightarrow> r = None \<and> opt_state_dict api b' = ?sds ! (0 + j)"
  proof (intro allI impI)
    fix j assume j: "j < length bs"
    then have "(as ! j, bs ! j) \<in> set (zip as bs)"
      using len by (metis in_set_zip fst_conv snd_conv)
    with rt as bs have "instance_round_trip api (as ! j) (bs ! j)" by auto
    then show "case opt_load_state_dict api (bs ! j) (?sds ! (0 + j)) of
        (b', r) \<Rightarrow> r = None \<and> opt_state_dict api b' = ?sds ! (0 + j)"
      using j len by (simp add: instance_round_trip_def)
  qed
  with load_each_round_trip[of ?sds 0 bs api] len obtain bs' where
    bs': "load_each api ?sds 0 bs = (bs', None)" "map (opt_state_dict api) bs' = ?sds"
    by auto
  have sd1: "state_dict api w1 = Inr (VList ?sds)"
    using c1(1) True as by (simp add: state_dict_def)
  have ld: "load_state_dict api w2 (VList ?sds) = (w2\<lparr> optimizer := OptList bs' \<rparr>, None)"
    using c2(1) True bs len bs'(1) by (simp add: load_state_dict_def py_assert_def)
  have "state_dict api (w2\<lparr> optimizer := OptList bs' \<rparr>) = Inr (VList ?sds)"
    using c2(1) True bs'(2) by (simp add: state_dict_def)
  with sd1 ld show ?thesis by blast
next
  case False
  note c1 = constructed_cases[OF b1, of ops1, folded w1]
  note c2 = constructed_cases[OF b2, of ops2, folded w2]
  from c1 c2 False obtain a b where
    a: "optimizer w1 = OptOne a" and b: "optimizer w2 = OptOne b" by auto
  from rt a b have "instance_round_trip api a b" by simp
  then obtain b' where
    b': "opt_load_state_dict api b (opt_state_dict api a) = (b', None)"
        "opt_state_dict api b' = opt_state_dict api a"
    by (auto simp: instance_round_trip_def split: prod.splits)
  from dict False a have d: "is_dict (opt_state_dict api a)" by simp
  have sd1: "state_dict api w1 = Inr (opt_state_dict api a)"
    using c1(1) False a by (simp add: state_dict_def)
  have ld: "load_state_dict api w2 (opt_state_dict api a) = (w2\<lparr> optimizer := OptOne b' \<rparr>, None)"
    using c2(1) False b d b'(1) by (simp add: load_state_dict_def py_assert_def)
  have "state_dict api (w2\<lparr> optimizer := OptOne b' \<rparr>) = Inr (opt_state_dict api a)"
    using c2(1) False b'(2) by (simp add: state_dict_def)
  with sd1 ld show ?thesis by blast
qed

theorem state_dict_round_trip_witness:
  "(\<exists>w2'. state_dict sample_api (run_operations sample_api [Step] two_agents) =
               Inr (VList [VDict [(''step'', VInt 1)], VDict [(''step'', VInt 1)]])
           \<and> load_state_dict sample_api two_agents
               (VList [VDict [(''step'', VInt 1)], VDict [(''step'', VInt 1)]]) = (w2', None)
           \<and> state_dict sample_api w2' =
               Inr (VList [VDict [(''step'', VInt 1)], VDict [(''step'', VInt 1)]]))
   \<and> is_dict (opt_state_dict sample_api
        (hd (instances (optimizer (run_operations sample_api [Step] one_agent)))))
   \<and> (\<exists>w2'. state_dict sample_api (run_operations sample_api [Step] one_agent) =
               Inr (VDict [(''step'', VInt 1)])
           \<and> load_state_dict sample_api one_agent (VDict [(''step'', VInt 1)]) = (w2', None)
           \<and> state_dict sample_api w2' = Inr (VDict [(''step'', VInt 1)]))"
proof -
  have rt: "\<forall>(a, b) \<in> set (zip (instances (optimizer (run_operations sample_api [Step] two_agents)))
                        (instances (optimizer (run_operations sample_api [] two_agents)))).
       instance_round_trip sample_api a b"
    by (simp add: two_agents_def operation_defs)
  have sd: "state_dict sample_api (run_operations sample_api [Step] two_agents) =
               Inr (VList [VDict [(''step'', VInt 1)], VDict [(''step'', VInt 1)]])"
    by (simp add: two_agents_def operation_defs)
  have rt1: "\<forall>(a, b) \<in> set (zip (instances (optimizer (run_operations sample_api [Step] one_agent)))
                        (instances (optimizer (run_operations sample_api [] one_agent)))).
       instance_round_trip sample_api a b"
    by (simp add: one_agent_def operation_defs)
  have d1: "\<not> False \<longrightarrow>
      (\<forall>a \<in> set (instances (optimizer (run_operations sample_api [Step] one_agent))).
         is_dict (opt_state_dict sample_api a))"
    by (simp add: one_agent_def operation_defs)
  have sd1: "state_dict sample_api (run_operations sample_api [Step] one_agent) =
               Inr (VDict [(''step'', VInt 1)])"
    by (simp add: one_agent_def operation_defs)
  from state_dict_round_trip[OF two_agents_init two_agents_again refl refl rt]
    state_dict_round_trip[OF one_agent_init one_agent_init refl refl rt1 d1]
  show ?thesis using sd d1 sd1 by (auto simp: one_agent_def operation_defs)
qed

end
